theory Spec2Isabelle
  imports Complex_Main "HOL-Library.AList"
begin

section \<open>Errors\<close>

text \<open>
  Every exception that \<^verbatim>\<open>DataTable.h\<close> throws, or lets through, is a value of
  \<open>error\<close>. The numeric payloads are the ones the source hands to the exception
  (all of them \<^verbatim>\<open>size_t\<close>); message texts are not modelled. The last three
  constructors are failures below OpenSim: \<open>StdOutOfRange\<close> is thrown by
  \<^verbatim>\<open>std::vector::at\<close>, \<open>SimTKError\<close> stands for a failed index or size check of
  the SimTK matrix, and \<open>NullPointerDereference\<close> for a member access through a
  null pointer, where the program has no defined behaviour.
\<close>

datatype error =
    InvalidArgument
  | IncorrectNumColumns nat nat
  | InvalidRow
  | RowIndexOutOfRange nat nat nat
  | ColumnIndexOutOfRange nat nat nat
  | KeyNotFound
  | MissingMetaData string
  | MetaDataLengthZero string
  | IncorrectMetaDataLength string nat nat
  | TypeMismatch
  | StdOutOfRange
  | SimTKError
  | NullPointerDereference

section \<open>Integer conversions\<close>

text \<open>
  Sizes and indices are natural numbers in the model. Where the source subtracts
  in \<^verbatim>\<open>size_t\<close> or \<^verbatim>\<open>int\<close> and converts between integer types, the
  conversion is written out: \<open>size_t_cast\<close> is the value of an integer as a 64-bit
  unsigned, \<open>unsigned_cast\<close> as a 32-bit unsigned, \<open>int_cast\<close> as a 32-bit signed
  integer in two's complement.
\<close>

definition size_t_cast :: "int \<Rightarrow> nat" where
  "size_t_cast i = nat (i mod 2 ^ 64)"

definition unsigned_cast :: "int \<Rightarrow> nat" where
  "unsigned_cast i = nat (i mod 2 ^ 32)"

definition int_cast :: "int \<Rightarrow> int" where
  "int_cast i = (i + 2 ^ 31) mod 2 ^ 32 - 2 ^ 31"

section \<open>Values of the independent column\<close>

text \<open>
  \<^verbatim>\<open>double\<close>, as far as \<^verbatim>\<open>operator==\<close> tells its values apart: a number
  (the two zeros are one number), an infinity, or NaN. A value equals itself and
  nothing else, except NaN, which equals nothing, itself included.
\<close>

datatype double = Num real | PlusInfinity | MinusInfinity | NaN


section \<open>Metadata stores\<close>

text \<open>
  Modelled from the spec: the keyed metadata stores (\<^verbatim>\<open>AbstractDataTable.h\<close> and
  the value dictionaries it uses are not among the sources). A store maps a string
  key to a typed value (table and independent-column metadata) or to a typed array
  of values, one per column (dependents metadata). The value kinds are string,
  unsigned integer, signed integer and floating point. Looking up a missing key
  fails with \<open>KeyNotFound\<close>; removing a missing key does nothing.
\<close>

datatype Value =
    StringValue string
  | UnsignedValue nat
  | IntValue int
  | DoubleValue real

datatype ValueArray =
    StringArray "string list"
  | UnsignedArray "nat list"
  | IntArray "int list"
  | DoubleArray "real list"

type_synonym ValueDictionary = "(string \<times> Value) list"

type_synonym ValueArrayDictionary = "(string \<times> ValueArray) list"

text \<open>
  Modelled from the spec: the operations of the store of value arrays. A store is
  a list of keys with their arrays, in the order \<^verbatim>\<open>getKeys\<close> produces
  them; a lookup takes the first entry of a key.
\<close>

fun ValueArray_size :: "ValueArray \<Rightarrow> nat" where
  "ValueArray_size (StringArray vs) = length vs"
| "ValueArray_size (UnsignedArray vs) = length vs"
| "ValueArray_size (IntArray vs) = length vs"
| "ValueArray_size (DoubleArray vs) = length vs"

definition hasKey :: "ValueArrayDictionary \<Rightarrow> string \<Rightarrow> bool" where
  "hasKey d k = (map_of d k \<noteq> None)"

definition getValueArrayForKey :: "ValueArrayDictionary \<Rightarrow> string \<Rightarrow> error + ValueArray" where
  "getValueArrayForKey d k =
     (case map_of d k of None \<Rightarrow> Inl KeyNotFound | Some a \<Rightarrow> Inr a)"

definition setValueArrayForKey ::
  "ValueArrayDictionary \<Rightarrow> string \<Rightarrow> ValueArray \<Rightarrow> ValueArrayDictionary" where
  "setValueArrayForKey d k a = AList.update k a d"

definition removeValueArrayForKey :: "ValueArrayDictionary \<Rightarrow> string \<Rightarrow> ValueArrayDictionary" where
  "removeValueArrayForKey d k = AList.delete k d"

definition getKeys :: "ValueArrayDictionary \<Rightarrow> string list" where
  "getKeys d = map fst d"

section \<open>The dense matrix\<close>

text \<open>
  Modelled from the spec: \<^verbatim>\<open>SimTK::Matrix_\<close>, the dense R x C matrix of dependent
  elements (\<^verbatim>\<open>SimTKcommon/internal/BigMatrix.h\<close> is not among the sources). A
  matrix is its two dimensions and its cells; only the cells below the dimensions
  are part of it. \<open>resize\<close> sets the dimensions and keeps no content, \<open>resizeKeep\<close>
  keeps the cells that stay inside; the cells either of them adds hold nothing
  specified until they are assigned. A row or column view takes its index as a C++
  \<^verbatim>\<open>int\<close>. A view outside the dimensions, and the assignment of a row of
  another width to a row view, fail inside SimTK.
\<close>

record 'y Matrix =
  nrow :: nat
  ncol :: nat
  elt :: "nat \<Rightarrow> nat \<Rightarrow> 'y"

definition Matrix_empty :: "'y Matrix" where
  "Matrix_empty = \<lparr>nrow = 0, ncol = 0, elt = (\<lambda>i j. undefined)\<rparr>"

definition resize :: "'y Matrix \<Rightarrow> nat \<Rightarrow> nat \<Rightarrow> 'y Matrix" where
  "resize m r c = \<lparr>nrow = r, ncol = c, elt = (\<lambda>i j. undefined)\<rparr>"

definition resizeKeep :: "'y Matrix \<Rightarrow> nat \<Rightarrow> nat \<Rightarrow> 'y Matrix" where
  "resizeKeep m r c =
     \<lparr>nrow = r, ncol = c,
      elt = (\<lambda>i j. if i < nrow m \<and> j < ncol m then elt m i j else undefined)\<rparr>"

definition Matrix_row :: "'y Matrix \<Rightarrow> int \<Rightarrow> error + 'y list" where
  "Matrix_row m i =
     (if 0 \<le> i \<and> i < int (nrow m) then Inr (map (elt m (nat i)) [0..<ncol m])
      else Inl SimTKError)"

definition Matrix_col :: "'y Matrix \<Rightarrow> int \<Rightarrow> error + 'y list" where
  "Matrix_col m j =
     (if 0 \<le> j \<and> j < int (ncol m) then Inr (map (\<lambda>i. elt m i (nat j)) [0..<nrow m])
      else Inl SimTKError)"

definition updRow_assign :: "'y Matrix \<Rightarrow> nat \<Rightarrow> 'y list \<Rightarrow> error + 'y Matrix" where
  "updRow_assign m i row =
     (if i < nrow m \<and> length row = ncol m
      then Inr (m\<lparr>elt := (\<lambda>r c. if r = i \<and> c < ncol m then row ! c else elt m r c)\<rparr>)
      else Inl SimTKError)"

section \<open>The table\<close>

text \<open>
  \<^verbatim>\<open>DataTable_<ETX, ETY>\<close>: the three metadata stores of the base class, the
  independent column \<^verbatim>\<open>_indData\<close> and the matrix \<^verbatim>\<open>_depData\<close>.
\<close>

record ('x, 'y) DataTable =
  tableMetaData :: ValueDictionary
  independentMetaData :: ValueDictionary
  dependentsMetaData :: ValueArrayDictionary
  indData :: "'x list"
  depData :: "'y Matrix"

definition DataTable_default :: "('x, 'y) DataTable" where
  "DataTable_default =
     \<lparr>tableMetaData = [], independentMetaData = [], dependentsMetaData = [],
      indData = [], depData = Matrix_empty\<rparr>"

text \<open>The defaulted copy constructor copies member by member.\<close>

definition DataTable_copy :: "('x, 'y) DataTable \<Rightarrow> ('x, 'y) DataTable" where
  "DataTable_copy that =
     \<lparr>tableMetaData = tableMetaData that,
      independentMetaData = independentMetaData that,
      dependentsMetaData = dependentsMetaData that,
      indData = indData that,
      depData = depData that\<rparr>"

definition implementGetNumRows :: "('x, 'y) DataTable \<Rightarrow> nat" where
  "implementGetNumRows t = nrow (depData t)"

definition implementGetNumColumns :: "('x, 'y) DataTable \<Rightarrow> nat" where
  "implementGetNumColumns t = ncol (depData t)"

definition getIndependentColumn :: "('x, 'y) DataTable \<Rightarrow> 'x list" where
  "getIndependentColumn t = indData t"

definition getMatrix :: "('x, 'y) DataTable \<Rightarrow> 'y Matrix" where
  "getMatrix t = depData t"

definition isRowIndexOutOfRange :: "('x, 'y) DataTable \<Rightarrow> nat \<Rightarrow> bool" where
  "isRowIndexOutOfRange t index = (index \<ge> length (indData t))"

definition isColumnIndexOutOfRange :: "('x, 'y) DataTable \<Rightarrow> nat \<Rightarrow> bool" where
  "isColumnIndexOutOfRange t index = (index \<ge> size_t_cast (int (ncol (depData t))))"

text \<open>
  \<^verbatim>\<open>validateRow\<close> is the hook a derived class may override; in
  \<^verbatim>\<open>DataTable_\<close> it does nothing.
\<close>

definition validateRow :: "nat \<Rightarrow> 'x \<Rightarrow> 'y list \<Rightarrow> error option" where
  "validateRow rowIndex indRow depRow = None"

text \<open>
  Modelled from the spec: the row and column counts and the column-label queries
  of the base class (\<^verbatim>\<open>AbstractDataTable.h\<close> is not among the sources). The
  counts are the ones the table implements. The column labels are the array of
  strings under the key "labels" of the dependents metadata; a table has column
  labels when that key is present.
\<close>

definition getNumRows :: "('x, 'y) DataTable \<Rightarrow> nat" where
  "getNumRows t = implementGetNumRows t"

definition getNumColumns :: "('x, 'y) DataTable \<Rightarrow> nat" where
  "getNumColumns t = implementGetNumColumns t"

definition hasColumnLabels :: "('x, 'y) DataTable \<Rightarrow> bool" where
  "hasColumnLabels t = hasKey (dependentsMetaData t) ''labels''"

definition getColumnLabels :: "('x, 'y) DataTable \<Rightarrow> error + string list" where
  "getColumnLabels t =
     (case getValueArrayForKey (dependentsMetaData t) ''labels'' of
        Inl e \<Rightarrow> Inl e
      | Inr (StringArray ls) \<Rightarrow> Inr ls
      | Inr _ \<Rightarrow> Inl TypeMismatch)"

subsection \<open>Validation of the dependents metadata\<close>

fun validateKeys :: "ValueArrayDictionary \<Rightarrow> nat \<Rightarrow> string list \<Rightarrow> error option" where
  "validateKeys d numCols [] = None"
| "validateKeys d numCols (key # keys) =
     (case getValueArrayForKey d key of
        Inl e \<Rightarrow> Some e
      | Inr a \<Rightarrow>
          if numCols \<noteq> ValueArray_size a
          then Some (IncorrectMetaDataLength key numCols (ValueArray_size a))
          else validateKeys d numCols keys)"

definition validateDependentsMetaData :: "('x, 'y) DataTable \<Rightarrow> error option" where
  "validateDependentsMetaData t =
     (case getValueArrayForKey (dependentsMetaData t) ''labels'' of
        Inl e \<Rightarrow> (if e = KeyNotFound then Some (MissingMetaData ''labels'') else Some e)
      | Inr labels \<Rightarrow>
          let numCols = unsigned_cast (int (ValueArray_size labels)) in
          if numCols = 0 then Some (MetaDataLengthZero ''labels'')
          else if ncol (depData t) \<noteq> 0 \<and> numCols \<noteq> unsigned_cast (int (ncol (depData t)))
          then Some (IncorrectMetaDataLength ''labels''
                       (size_t_cast (int (ncol (depData t)))) numCols)
          else validateKeys (dependentsMetaData t) numCols (getKeys (dependentsMetaData t)))"

text \<open>
  Modelled from the spec: \<^verbatim>\<open>setColumnLabels\<close> of the base class
  (\<^verbatim>\<open>AbstractDataTable.h\<close> is not among the sources). It replaces the array
  under "labels" and then validates the dependents metadata, as the comment at line
  214 of \<^verbatim>\<open>DataTable.h\<close> says.
\<close>

definition setColumnLabels ::
  "('x, 'y) DataTable \<Rightarrow> string list \<Rightarrow> error option \<times> ('x, 'y) DataTable" where
  "setColumnLabels t columnLabels =
     (let t' = t\<lparr>dependentsMetaData :=
                  setValueArrayForKey
                    (removeValueArrayForKey (dependentsMetaData t) ''labels'')
                    ''labels'' (StringArray columnLabels)\<rparr>
      in (validateDependentsMetaData t', t'))"

subsection \<open>Appending a row\<close>

text \<open>
  A call that mutates the table returns the exception it raised, if any, and the
  table as the call left it.
\<close>

definition appendRow_labelsCheck :: "('x, 'y) DataTable \<Rightarrow> 'y list \<Rightarrow> error option" where
  "appendRow_labelsCheck t depRow =
     (case getValueArrayForKey (dependentsMetaData t) ''labels'' of
        Inl e \<Rightarrow> (if e = KeyNotFound then None else Some e)
      | Inr labels \<Rightarrow>
          if unsigned_cast (int (length depRow)) \<noteq> ValueArray_size labels
          then Some (IncorrectNumColumns (ValueArray_size labels)
                       (size_t_cast (int (length depRow))))
          else None)"

definition appendRow_write :: "('x, 'y) DataTable \<Rightarrow> 'y list \<Rightarrow> error option \<times> ('x, 'y) DataTable" where
  "appendRow_write t depRow =
     (case updRow_assign (depData t) (nrow (depData t) - 1) depRow of
        Inl e \<Rightarrow> (Some e, t)
      | Inr m \<Rightarrow> (None, t\<lparr>depData := m\<rparr>))"

definition appendRow ::
  "('x, 'y) DataTable \<Rightarrow> 'x \<Rightarrow> 'y list \<Rightarrow> error option \<times> ('x, 'y) DataTable" where
  "appendRow t indRow depRow =
     (case validateRow (length (indData t)) indRow depRow of
        Some e \<Rightarrow> (Some e, t)
      | None \<Rightarrow>
          let t1 = t\<lparr>indData := indData t @ [indRow]\<rparr> in
          if nrow (depData t1) = 0 \<or> ncol (depData t1) = 0 then
            (case appendRow_labelsCheck t1 depRow of
               Some e \<Rightarrow> (Some e, t1)
             | None \<Rightarrow>
                 appendRow_write
                   (t1\<lparr>depData := resize (depData t1) 1 (length depRow)\<rparr>) depRow)
          else
            appendRow_write
              (t1\<lparr>depData := resizeKeep (depData t1) (nrow (depData t1) + 1)
                               (ncol (depData t1))\<rparr>) depRow)"

text \<open>
  The overloads of \<^verbatim>\<open>appendRow\<close> for a pair of iterators (lines 423 to 437)
  and for a container (lines 387 to 397). The elements are copied into a row vector
  of length \<^verbatim>\<open>static_cast<int>(std::distance(begin, end))\<close>, which is never
  more than the distance. A row vector of negative length, and a write past the end
  of the row vector, fail inside SimTK; otherwise the row vector holds the elements.
\<close>

definition appendRow_iterators ::
  "('x, 'y) DataTable \<Rightarrow> 'x \<Rightarrow> 'y list \<Rightarrow> error option \<times> ('x, 'y) DataTable" where
  "appendRow_iterators t indRow elems =
     (let n = int_cast (int (length elems)) in
      if n < 0 \<or> nat n < length elems then (Some SimTKError, t)
      else appendRow t indRow elems)"

definition appendRow_container ::
  "('x, 'y) DataTable \<Rightarrow> 'x \<Rightarrow> 'y list \<Rightarrow> error option \<times> ('x, 'y) DataTable" where
  "appendRow_container t indRow container = appendRow_iterators t indRow container"

subsection \<open>Row and column access\<close>

definition getRowAtIndex :: "('x, 'y) DataTable \<Rightarrow> nat \<Rightarrow> error + 'y list" where
  "getRowAtIndex t index =
     (if isRowIndexOutOfRange t index
      then Inl (RowIndexOutOfRange index 0
                  (unsigned_cast (int (size_t_cast (int (length (indData t)) - 1)))))
      else Matrix_row (depData t) (int_cast (int index)))"



definition getDependentColumnAtIndex :: "('x, 'y) DataTable \<Rightarrow> nat \<Rightarrow> error + 'y list" where
  "getDependentColumnAtIndex t index =
     (if isColumnIndexOutOfRange t index
      then Inl (ColumnIndexOutOfRange index 0
                  (size_t_cast (int (ncol (depData t)) - 1)))
      else Matrix_col (depData t) (int_cast (int index)))"

section \<open>Flattening\<close>

text \<open>
  The element type \<^verbatim>\<open>ETY\<close> of a table is \<^verbatim>\<open>double\<close>,
  \<^verbatim>\<open>SimTK::Vec<M>\<close> or \<^verbatim>\<open>SimTK::Vec<M, SimTK::Vec<N>>\<close>. The type is a
  template argument, so the operations that depend on it take it as an argument
  here; \<open>hasType\<close> says that an element is a value of the type.
\<close>

datatype ElementType = Double | VecType nat | VecVecType nat nat

datatype Elem = Scalar real | Vec "real list" | VecVec "real list list"

fun hasType :: "ElementType \<Rightarrow> Elem \<Rightarrow> bool" where
  "hasType Double (Scalar x) = True"
| "hasType (VecType M) (Vec xs) = (length xs = M)"
| "hasType (VecVecType M N) (VecVec xss) = (length xss = M \<and> list_all (\<lambda>xs. length xs = N) xss)"
| "hasType ETY e = False"

fun numComponentsPerElement_impl :: "ElementType \<Rightarrow> nat" where
  "numComponentsPerElement_impl Double = 1"
| "numComponentsPerElement_impl (VecType M) = M"
| "numComponentsPerElement_impl (VecVecType M N) = M * N"

definition numComponentsPerElement :: "ElementType \<Rightarrow> nat" where
  "numComponentsPerElement ETY = numComponentsPerElement_impl ETY"

text \<open>
  \<^verbatim>\<open>splitElementAndPushBack\<close> pushes the components of an element in their
  order, the outer index first. The overload for any other type does not compile.
\<close>

fun splitElementAndPushBack :: "Elem list \<Rightarrow> Elem \<Rightarrow> Elem list" where
  "splitElementAndPushBack row (Vec xs) = row @ map Scalar xs"
| "splitElementAndPushBack row (VecVec xss) = row @ map Scalar (concat xss)"
| "splitElementAndPushBack row (Scalar x) = row"

text \<open>\<^verbatim>\<open>std::to_string\<close> of an unsigned integer: its decimal digits.\<close>

definition digit_char :: "nat \<Rightarrow> char" where
  "digit_char d = ''0123456789'' ! d"

fun to_string :: "nat \<Rightarrow> string" where
  "to_string n = (if n < 10 then [digit_char n] else to_string (n div 10) @ [digit_char (n mod 10)])"

declare to_string.simps [simp del]

text \<open>
  A \<^verbatim>\<open>dynamic_cast\<close> of a pointer gives the null pointer when the object is
  not of the target type; it does not throw \<^verbatim>\<open>std::bad_cast\<close>.
\<close>

fun dynamic_cast_StringArray :: "ValueArray \<Rightarrow> string list option" where
  "dynamic_cast_StringArray (StringArray vs) = Some vs"
| "dynamic_cast_StringArray a = None"

text \<open>
  The loop over the keys of the dependents metadata (lines 183 to 202). The
  handler of \<^verbatim>\<open>std::bad_cast\<close> is never entered, since the cast of a pointer
  does not throw; with an array of another type \<^verbatim>\<open>valueArray\<close> is null and
  \<^verbatim>\<open>valueArray->upd()\<close> goes through it.
\<close>

fun replicateMetaData ::
  "nat \<Rightarrow> string list \<Rightarrow> ValueArrayDictionary \<Rightarrow> error + ValueArrayDictionary" where
  "replicateMetaData n [] d = Inr d"
| "replicateMetaData n (key # keys) d =
     (if key = ''labels'' then replicateMetaData n keys d
      else
        (case getValueArrayForKey d key of
           Inl e \<Rightarrow> Inl e
         | Inr absValueArray \<Rightarrow>
             (case dynamic_cast_StringArray absValueArray of
                None \<Rightarrow> Inl NullPointerDereference
              | Some values \<Rightarrow>
                  replicateMetaData n keys
                    (setValueArrayForKey d key
                       (StringArray (concat (map (replicate n) values)))))))"

definition expandLabel :: "nat \<Rightarrow> string list \<Rightarrow> string \<Rightarrow> string list" where
  "expandLabel n suffixes label =
     (if suffixes = [] then map (\<lambda>i. label @ ''_'' @ to_string i) [1..<n + 1]
      else map (\<lambda>suffix. label @ suffix) suffixes)"

fun appendRows ::
  "('x, Elem) DataTable \<Rightarrow> nat list \<Rightarrow> ('x, Elem) DataTable \<Rightarrow> error + ('x, Elem) DataTable" where
  "appendRows that [] this = Inr this"
| "appendRows that (r # rs) this =
     (if r \<ge> length (getIndependentColumn that) then Inl StdOutOfRange
      else
        (case getRowAtIndex that r of
           Inl e \<Rightarrow> Inl e
         | Inr thatRow \<Rightarrow>
             let row = foldl splitElementAndPushBack []
                         (map (\<lambda>c. thatRow ! c) [0..<getNumColumns that]) in
             (case appendRow_container this (getIndependentColumn that ! r) row of
                (Some e, this') \<Rightarrow> Inl e
              | (None, this') \<Rightarrow> appendRows that rs this')))"

text \<open>
  The converting constructor (lines 153 to 225). The new table starts as a copy
  of the three metadata stores of \<open>that\<close>, with no rows. A constructor that throws
  leaves no table, so the result is the exception or the table.
\<close>

definition DataTable_flatten ::
  "ElementType \<Rightarrow> ('x, Elem) DataTable \<Rightarrow> string list \<Rightarrow> error + ('x, Elem) DataTable" where
  "DataTable_flatten ThatETY that suffixes =
     (if \<not> hasColumnLabels that then Inl InvalidArgument
      else if getNumRows that = 0 \<or> getNumColumns that = 0 then Inl InvalidArgument
      else if suffixes \<noteq> [] \<and> length suffixes \<noteq> numComponentsPerElement ThatETY
      then Inl InvalidArgument
      else
        (case replicateMetaData (numComponentsPerElement ThatETY)
                (getKeys (dependentsMetaData that)) (dependentsMetaData that) of
           Inl e \<Rightarrow> Inl e
         | Inr d \<Rightarrow>
             (case getColumnLabels that of
                Inl e \<Rightarrow> Inl e
              | Inr thatLabels \<Rightarrow>
                  let thisLabels =
                        concat (map (expandLabel (numComponentsPerElement ThatETY) suffixes)
                                  thatLabels) in
                  (case setColumnLabels
                          \<lparr>tableMetaData = tableMetaData that,
                           independentMetaData = independentMetaData that,
                           dependentsMetaData = d,
                           indData = [], depData = Matrix_empty\<rparr> thisLabels of
                     (Some e, this) \<Rightarrow> Inl e
                   | (None, this) \<Rightarrow> appendRows that [0..<getNumRows that] this))))"

text \<open>
  \<^verbatim>\<open>flatten()\<close> returns \<^verbatim>\<open>DataTable_<double, double>{*this}\<close>. For a table
  of \<^verbatim>\<open>double\<close> that expression is the copy constructor (the converting
  constructor is a template, and its static assertion says to use the copy
  constructor); for the other element types it is the converting constructor with no
  suffixes. \<^verbatim>\<open>flatten(suffixes)\<close> is always the converting constructor.
\<close>

definition flatten :: "ElementType \<Rightarrow> ('x, Elem) DataTable \<Rightarrow> error + ('x, Elem) DataTable" where
  "flatten ETY t =
     (case ETY of
        Double \<Rightarrow> Inr (DataTable_copy t)
      | _ \<Rightarrow> DataTable_flatten ETY t [])"

definition flatten_suffixes ::
  "ElementType \<Rightarrow> ('x, Elem) DataTable \<Rightarrow> string list \<Rightarrow> error + ('x, Elem) DataTable" where
  "flatten_suffixes ETY t suffixes = DataTable_flatten ETY t suffixes"

section \<open>Well-formed source tables\<close>

text \<open>
  What the type of a table and the validation of its metadata guarantee about a
  source table of \<^verbatim>\<open>flatten\<close>: every element of the matrix is a value of the
  element type, and the dependents metadata has distinct keys, each with an array of
  strings that has one entry per column.
\<close>

definition wellTyped :: "ElementType \<Rightarrow> Elem Matrix \<Rightarrow> bool" where
  "wellTyped ETY m =
     list_all (\<lambda>i. list_all (\<lambda>j. hasType ETY (elt m i j)) [0..<ncol m]) [0..<nrow m]"

definition stringMetaData :: "nat \<Rightarrow> ValueArrayDictionary \<Rightarrow> bool" where
  "stringMetaData n d =
     (distinct (map fst d)
      \<and> list_all (\<lambda>(key, a). case dynamic_cast_StringArray a of
                                None \<Rightarrow> False | Some vs \<Rightarrow> length vs = n) d)"

section \<open>Example tables\<close>

text \<open>A table with two column labels and no row yet.\<close>

definition ex_labelled_empty :: "(real, real) DataTable" where
  "ex_labelled_empty =
     \<lparr>tableMetaData = [], independentMetaData = [],
      dependentsMetaData = [(''labels'', StringArray [''a'', ''b''])],
      indData = [], depData = Matrix_empty\<rparr>"

text \<open>The same table after \<^verbatim>\<open>appendRow(0.1, {1, 2})\<close>.\<close>

definition ex_one_row :: "(real, real) DataTable" where
  "ex_one_row = snd (appendRow ex_labelled_empty 0.1 [1, 2])"

text \<open>A table of \<^verbatim>\<open>double\<close> with two labelled columns and one row.\<close>

definition ex_scalar :: "(real, Elem) DataTable" where
  "ex_scalar =
     \<lparr>tableMetaData = [], independentMetaData = [],
      dependentsMetaData = [(''labels'', StringArray [''a'', ''b''])],
      indData = [0.1],
      depData = \<lparr>nrow = 1, ncol = 2, elt = (\<lambda>i j. Scalar ([[1, 2]] ! i ! j))\<rparr>\<rparr>"




text \<open>Tables whose dependents metadata does not validate.\<close>

definition ex_empty_labels :: "(real, real) DataTable" where
  "ex_empty_labels =
     \<lparr>tableMetaData = [], independentMetaData = [],
      dependentsMetaData = [(''labels'', StringArray [])],
      indData = [], depData = Matrix_empty\<rparr>"

definition ex_short_units :: "(real, real) DataTable" where
  "ex_short_units =
     \<lparr>tableMetaData = [], independentMetaData = [],
      dependentsMetaData =
        [(''labels'', StringArray [''a'', ''b'']), (''units'', StringArray [''m''])],
      indData = [0.1],
      depData = \<lparr>nrow = 1, ncol = 2, elt = (\<lambda>i j. [[1, 2]] ! i ! j)\<rparr>\<rparr>"

text \<open>
  Tables of \<^verbatim>\<open>Vec3\<close> with two labelled columns and one row, one with string
  metadata and one with metadata of unsigned integers.
\<close>

definition ex_vec3 :: "(real, Elem) DataTable" where
  "ex_vec3 =
     \<lparr>tableMetaData = [], independentMetaData = [],
      dependentsMetaData =
        [(''labels'', StringArray [''a'', ''b'']), (''units'', StringArray [''m'', ''s''])],
      indData = [0.1],
      depData = \<lparr>nrow = 1, ncol = 2,
                 elt = (\<lambda>i j. [[Vec [1, 2, 3], Vec [4, 5, 6]]] ! i ! j)\<rparr>\<rparr>"

definition ex_vec3_index :: "(real, Elem) DataTable" where
  "ex_vec3_index =
     \<lparr>tableMetaData = [], independentMetaData = [],
      dependentsMetaData =
        [(''labels'', StringArray [''a'', ''b'']), (''column-index'', UnsignedArray [1, 2])],
      indData = [0.1],
      depData = \<lparr>nrow = 1, ncol = 2,
                 elt = (\<lambda>i j. [[Vec [1, 2, 3], Vec [4, 5, 6]]] ! i ! j)\<rparr>\<rparr>"

section \<open>Properties of appendRow\<close>

lemmas appendRow_defs =
  appendRow_def validateRow_def appendRow_labelsCheck_def appendRow_write_def
  getValueArrayForKey_def resize_def resizeKeep_def updRow_assign_def
  unsigned_cast_def size_t_cast_def

lemmas count_defs =
  getNumRows_def getNumColumns_def implementGetNumRows_def implementGetNumColumns_def

lemma int_cast_small: "n < 2 ^ 31 \<Longrightarrow> int_cast (int n) = int n"
proof -
  assume "n < 2 ^ 31"
  then have "int n < 2 ^ 31" by (simp flip: of_nat_less_iff)
  then have "0 \<le> int n + 2 ^ 31" and "int n + 2 ^ 31 < 2 ^ 32" by simp_all
  then have "(int n + 2 ^ 31) mod 2 ^ 32 = int n + 2 ^ 31" by (rule mod_pos_pos_trivial)
  then show ?thesis by (simp add: int_cast_def)
qed

lemma int_cast_0: "int_cast 0 = 0"
  by (simp add: int_cast_def)


lemma Matrix_row_cast:
  "i < 2 ^ 31 \<Longrightarrow>
     Matrix_row m (int_cast (int i))
       = (if i < nrow m then Inr (map (elt m i) [0..<ncol m]) else Inl SimTKError)"
  by (simp add: int_cast_small Matrix_row_def)

lemma ex_one_row_eval:
  "dependentsMetaData ex_one_row = [(''labels'', StringArray [''a'', ''b''])]
   \<and> indData ex_one_row = [0.1]
   \<and> nrow (depData ex_one_row) = 1 \<and> ncol (depData ex_one_row) = 2
   \<and> elt (depData ex_one_row) 0 0 = 1 \<and> elt (depData ex_one_row) 0 1 = 2"
  by (simp add: ex_one_row_def ex_labelled_empty_def Matrix_empty_def appendRow_defs)

lemma map_nth_or: "map (\<lambda>c. if c < length row then row ! c else f c) [0..<length row] = row"
  by (rule nth_equalityI) simp_all

text \<open>
  Claim C1 says that a failing \<^verbatim>\<open>appendRow\<close> leaves the table as it was. The
  code pushes the independent value before it compares the width of the first row with
  the labels: on the table with labels a, b and no row, \<^verbatim>\<open>appendRow(0.5, {1})\<close>
  raises \<open>IncorrectNumColumns 2 1\<close> and leaves a table whose independent column is
  \<open>[0.5]\<close> while the matrix is still empty.
\<close>

theorem appendRow_failure_commits_independent_value:
  "appendRow ex_labelled_empty 0.5 [1] =
     (Some (IncorrectNumColumns 2 1), ex_labelled_empty\<lparr>indData := [0.5]\<rparr>)
   \<and> ex_labelled_empty\<lparr>indData := [0.5]\<rparr> \<noteq> ex_labelled_empty"
  by (simp add: appendRow_defs ex_labelled_empty_def Matrix_empty_def)

text \<open>
  Claim C2 says that a row of another width than the established column count is
  rejected with \<open>IncorrectNumColumns\<close> and changes no count. The code compares the
  width with the labels only while the matrix is empty. On the table with two columns
  and one row, \<^verbatim>\<open>appendRow(0.5, {7})\<close> raises no \<open>IncorrectNumColumns\<close>: the
  independent value is pushed, the matrix grows to two rows, and the assignment of the
  row of width one to the new row of width two fails inside SimTK.
\<close>

theorem appendRow_width_unchecked_after_first_row:
  "fst (appendRow ex_one_row 0.5 [7]) = Some SimTKError
   \<and> fst (appendRow ex_one_row 0.5 [7]) \<noteq> Some (IncorrectNumColumns 2 1)
   \<and> getNumColumns ex_one_row = 2
   \<and> getNumRows ex_one_row = 1
   \<and> getNumRows (snd (appendRow ex_one_row 0.5 [7])) = 2
   \<and> getIndependentColumn (snd (appendRow ex_one_row 0.5 [7])) = [0.1, 0.5]"
  using ex_one_row_eval
  by (simp add: appendRow_defs count_defs getIndependentColumn_def)

text \<open>
  Claim C10: the first \<^verbatim>\<open>appendRow\<close> into a table with no row and no "labels"
  entry succeeds for a row of any positive width. The \<open>KeyNotFound\<close> of the lookup is
  caught, the width is compared with nothing, the table then has one row, as many
  columns as the row is wide, the independent value at the end of the independent
  column, and the row as its row 0.
\<close>

theorem first_appendRow_without_labels:
  assumes "getNumRows t = 0" and "\<not> hasColumnLabels t" and "0 < length depRow"
  shows "\<exists>t'. appendRow t indRow depRow = (None, t')
            \<and> getNumRows t' = 1
            \<and> getNumColumns t' = length depRow
            \<and> getIndependentColumn t' = getIndependentColumn t @ [indRow]
            \<and> getRowAtIndex t' 0 = Inr depRow"
proof -
  have labels: "getValueArrayForKey (dependentsMetaData t) ''labels'' = Inl KeyNotFound"
    using assms(2) by (simp add: hasColumnLabels_def hasKey_def getValueArrayForKey_def)
  show ?thesis
    using assms(1) labels
    by (simp add: appendRow_def validateRow_def appendRow_labelsCheck_def appendRow_write_def
        resize_def updRow_assign_def count_defs getIndependentColumn_def getRowAtIndex_def
        isRowIndexOutOfRange_def Matrix_row_def int_cast_0 map_nth_or)
qed

theorem first_appendRow_without_labels_witness:
  "getNumRows (DataTable_default :: (real, real) DataTable) = 0
   \<and> \<not> hasColumnLabels (DataTable_default :: (real, real) DataTable)
   \<and> (\<exists>t'. appendRow (DataTable_default :: (real, real) DataTable) 0.5 [1, 2, 3] = (None, t')
            \<and> getNumRows t' = 1
            \<and> getNumColumns t' = length [1, 2, 3 :: real]
            \<and> getIndependentColumn t' = [0.5]
            \<and> getRowAtIndex t' 0 = Inr [1, 2, 3])"
proof -
  have a: "getNumRows (DataTable_default :: (real, real) DataTable) = 0"
    by (simp add: count_defs DataTable_default_def Matrix_empty_def)
  have b: "\<not> hasColumnLabels (DataTable_default :: (real, real) DataTable)"
    by (simp add: hasColumnLabels_def hasKey_def DataTable_default_def)
  have c: "0 < length [1, 2, 3 :: real]" by simp
  show ?thesis
    using a b first_appendRow_without_labels [OF a b c, of "0.5"]
    by (simp add: getIndependentColumn_def DataTable_default_def)
qed

section \<open>Properties of the index checks\<close>

text \<open>
  Claim C8 says that the out-of-range errors carry the bounds \<open>[0, count - 1]\<close>,
  also for a table with no row or no column. The upper bound is computed as
  \<^verbatim>\<open>static_cast<unsigned>(_indData.size() - 1)\<close> and
  \<^verbatim>\<open>static_cast<size_t>(_depData.ncol() - 1)\<close>: on the empty table the
  errors are raised, and carry the upper bounds \<open>2^32 - 1\<close> and \<open>2^64 - 1\<close>.
\<close>

theorem index_bounds_wrap_on_empty_table:
  "getNumRows (DataTable_default :: (real, real) DataTable) = 0
   \<and> getRowAtIndex (DataTable_default :: (real, real) DataTable) 0
       = Inl (RowIndexOutOfRange 0 0 4294967295)
   \<and> getNumColumns (DataTable_default :: (real, real) DataTable) = 0
   \<and> getDependentColumnAtIndex (DataTable_default :: (real, real) DataTable) 0
       = Inl (ColumnIndexOutOfRange 0 0 18446744073709551615)"
  by (simp add: count_defs getRowAtIndex_def getDependentColumnAtIndex_def
      isRowIndexOutOfRange_def isColumnIndexOutOfRange_def DataTable_default_def
      Matrix_empty_def unsigned_cast_def size_t_cast_def)

section \<open>Properties of getRow\<close>










section \<open>Properties of validateDependentsMetaData\<close>

lemma unsigned_cast_nat: "unsigned_cast (int n) = n mod 2 ^ 32"
proof -
  have "int n mod 2 ^ 32 = int (n mod 2 ^ 32)" by (simp add: zmod_int)
  then show ?thesis by (simp only: unsigned_cast_def nat_int)
qed

lemma unsigned_cast_small: "n < 2 ^ 32 \<Longrightarrow> unsigned_cast (int n) = n"
  by (simp add: unsigned_cast_nat)

lemma getKeys_lookup:
  "key \<in> set (getKeys d) \<Longrightarrow> \<exists>a. getValueArrayForKey d key = Inr a"
  by (cases "map_of d key")
    (auto simp: getKeys_def getValueArrayForKey_def map_of_eq_None_iff)

lemma lookup_getKeys:
  "getValueArrayForKey d key = Inr a \<Longrightarrow> key \<in> set (getKeys d)"
  by (auto simp: getKeys_def getValueArrayForKey_def map_of_eq_None_iff
      split: option.splits dest: map_of_SomeD intro: rev_image_eqI)

lemma validateKeys_None:
  "(validateKeys d n keys = None) =
     (\<forall>key \<in> set keys. \<exists>a. getValueArrayForKey d key = Inr a \<and> ValueArray_size a = n)"
  by (induction keys) (auto split: sum.splits)

lemma validateKeys_Some:
  "validateKeys d n keys = Some e \<Longrightarrow> set keys \<subseteq> set (getKeys d) \<Longrightarrow>
     \<exists>key a b. e = IncorrectMetaDataLength key a b"
proof (induction keys)
  case Nil
  then show ?case by simp
next
  case (Cons key keys)
  then obtain a where "getValueArrayForKey d key = Inr a"
    using getKeys_lookup [of key d] by auto
  then show ?case using Cons by (auto split: if_splits)
qed

text \<open>
  Claim C9, as amended. The column count of a matrix is a C++ \<^verbatim>\<open>int\<close>. When
  \<^verbatim>\<open>validateDependentsMetaData\<close> returns without error, the "labels" array
  is present and not empty, its length equals the column count unless the column
  count is zero, and every key of the dependents metadata has an array of the length
  of "labels". Validation fails with \<open>MissingMetaData\<close> when "labels" is absent,
  with \<open>MetaDataLengthZero\<close> when it is empty, and with \<open>IncorrectMetaDataLength\<close> when
  its length differs from a column count that is not zero or the length of another
  array differs from it.
\<close>

theorem validateDependentsMetaData_outcomes:
  assumes "getNumColumns t < 2 ^ 31"
  shows "(validateDependentsMetaData t = None \<longrightarrow>
            (\<exists>labels. getValueArrayForKey (dependentsMetaData t) ''labels'' = Inr labels
               \<and> 0 < ValueArray_size labels
               \<and> (getNumColumns t = 0 \<or> ValueArray_size labels = getNumColumns t)
               \<and> (\<forall>key \<in> set (getKeys (dependentsMetaData t)).
                     \<exists>a. getValueArrayForKey (dependentsMetaData t) key = Inr a
                       \<and> ValueArray_size a = ValueArray_size labels)))
       \<and> (\<not> hasColumnLabels t \<longrightarrow>
            validateDependentsMetaData t = Some (MissingMetaData ''labels''))
       \<and> (\<forall>labels. getValueArrayForKey (dependentsMetaData t) ''labels'' = Inr labels
              \<and> ValueArray_size labels = 0 \<longrightarrow>
            validateDependentsMetaData t = Some (MetaDataLengthZero ''labels''))
       \<and> (\<forall>labels. getValueArrayForKey (dependentsMetaData t) ''labels'' = Inr labels
              \<and> 0 < ValueArray_size labels \<and> ValueArray_size labels < 2 ^ 32
              \<and> ((getNumColumns t \<noteq> 0 \<and> ValueArray_size labels \<noteq> getNumColumns t)
                  \<or> (\<exists>key \<in> set (getKeys (dependentsMetaData t)).
                       \<exists>a. getValueArrayForKey (dependentsMetaData t) key = Inr a
                         \<and> ValueArray_size a \<noteq> ValueArray_size labels)) \<longrightarrow>
            (\<exists>key expected received.
               validateDependentsMetaData t
                 = Some (IncorrectMetaDataLength key expected received)))"
proof (intro conjI impI allI)
  have ncol: "unsigned_cast (int (ncol (depData t))) = ncol (depData t)"
    using assms by (simp add: unsigned_cast_small count_defs)
  {
    assume ok: "validateDependentsMetaData t = None"
    then obtain labels where
      l: "getValueArrayForKey (dependentsMetaData t) ''labels'' = Inr labels"
      by (cases "getValueArrayForKey (dependentsMetaData t) ''labels''")
        (auto simp: validateDependentsMetaData_def split: if_splits)
    define numCols where "numCols = unsigned_cast (int (ValueArray_size labels))"
    have nz: "numCols \<noteq> 0"
      and c: "ncol (depData t) = 0 \<or> numCols = ncol (depData t)"
      and k: "validateKeys (dependentsMetaData t) numCols (getKeys (dependentsMetaData t)) = None"
      using ok l ncol
      by (auto simp: validateDependentsMetaData_def Let_def numCols_def split: if_splits)
    have all: "\<forall>key \<in> set (getKeys (dependentsMetaData t)).
                 \<exists>a. getValueArrayForKey (dependentsMetaData t) key = Inr a
                   \<and> ValueArray_size a = numCols"
      using k by (simp add: validateKeys_None)
    have "ValueArray_size labels = numCols"
      using all lookup_getKeys [OF l] l by auto
    then show "\<exists>labels. getValueArrayForKey (dependentsMetaData t) ''labels'' = Inr labels
               \<and> 0 < ValueArray_size labels
               \<and> (getNumColumns t = 0 \<or> ValueArray_size labels = getNumColumns t)
               \<and> (\<forall>key \<in> set (getKeys (dependentsMetaData t)).
                     \<exists>a. getValueArrayForKey (dependentsMetaData t) key = Inr a
                       \<and> ValueArray_size a = ValueArray_size labels)"
      using l nz c all by (auto simp: count_defs)
  }
  {
    assume "\<not> hasColumnLabels t"
    then show "validateDependentsMetaData t = Some (MissingMetaData ''labels'')"
      by (simp add: hasColumnLabels_def hasKey_def validateDependentsMetaData_def
          getValueArrayForKey_def)
  }
  {
    fix labels
    assume "getValueArrayForKey (dependentsMetaData t) ''labels'' = Inr labels
              \<and> ValueArray_size labels = 0"
    then show "validateDependentsMetaData t = Some (MetaDataLengthZero ''labels'')"
      by (simp add: validateDependentsMetaData_def unsigned_cast_def)
  }
  {
    fix labels
    assume a: "getValueArrayForKey (dependentsMetaData t) ''labels'' = Inr labels
              \<and> 0 < ValueArray_size labels \<and> ValueArray_size labels < 2 ^ 32
              \<and> ((getNumColumns t \<noteq> 0 \<and> ValueArray_size labels \<noteq> getNumColumns t)
                  \<or> (\<exists>key \<in> set (getKeys (dependentsMetaData t)).
                       \<exists>a. getValueArrayForKey (dependentsMetaData t) key = Inr a
                         \<and> ValueArray_size a \<noteq> ValueArray_size labels))"
    then have num: "unsigned_cast (int (ValueArray_size labels)) = ValueArray_size labels"
      by (simp add: unsigned_cast_small)
    show "\<exists>key expected received.
               validateDependentsMetaData t
                 = Some (IncorrectMetaDataLength key expected received)"
    proof (cases "getNumColumns t \<noteq> 0 \<and> ValueArray_size labels \<noteq> getNumColumns t")
      case True
      then show ?thesis
        using a num ncol by (simp add: validateDependentsMetaData_def count_defs)
    next
      case False
      then have "\<exists>key \<in> set (getKeys (dependentsMetaData t)).
                       \<exists>a. getValueArrayForKey (dependentsMetaData t) key = Inr a
                         \<and> ValueArray_size a \<noteq> ValueArray_size labels"
        using a by blast
      then have "validateKeys (dependentsMetaData t) (ValueArray_size labels)
                   (getKeys (dependentsMetaData t)) \<noteq> None"
        unfolding validateKeys_None by fastforce
      then obtain e where e: "validateKeys (dependentsMetaData t) (ValueArray_size labels)
                   (getKeys (dependentsMetaData t)) = Some e"
        by auto
      then obtain key x y where "e = IncorrectMetaDataLength key x y"
        using validateKeys_Some [OF e] by auto
      then show ?thesis
        using a num ncol e False
        by (auto simp: validateDependentsMetaData_def count_defs)
    qed
  }
qed

theorem validateDependentsMetaData_outcomes_witness:
  "getNumColumns ex_one_row < 2 ^ 31
   \<and> validateDependentsMetaData ex_one_row = None
   \<and> (\<exists>labels. getValueArrayForKey (dependentsMetaData ex_one_row) ''labels'' = Inr labels
               \<and> 0 < ValueArray_size labels
               \<and> (getNumColumns ex_one_row = 0 \<or> ValueArray_size labels = getNumColumns ex_one_row)
               \<and> (\<forall>key \<in> set (getKeys (dependentsMetaData ex_one_row)).
                     \<exists>a. getValueArrayForKey (dependentsMetaData ex_one_row) key = Inr a
                       \<and> ValueArray_size a = ValueArray_size labels))
   \<and> validateDependentsMetaData (DataTable_default :: (real, real) DataTable)
       = Some (MissingMetaData ''labels'')
   \<and> validateDependentsMetaData ex_empty_labels = Some (MetaDataLengthZero ''labels'')
   \<and> (\<exists>key expected received.
         validateDependentsMetaData ex_short_units
           = Some (IncorrectMetaDataLength key expected received))"
proof -
  have c1: "getNumColumns ex_one_row < 2 ^ 31"
    using ex_one_row_eval by (simp add: count_defs)
  have v1: "validateDependentsMetaData ex_one_row = None"
    using ex_one_row_eval
    by (simp add: validateDependentsMetaData_def getValueArrayForKey_def
        unsigned_cast_def getKeys_def)
  have c2: "getNumColumns (DataTable_default :: (real, real) DataTable) < 2 ^ 31"
    by (simp add: DataTable_default_def Matrix_empty_def count_defs)
  have h2: "\<not> hasColumnLabels (DataTable_default :: (real, real) DataTable)"
    by (simp add: DataTable_default_def hasColumnLabels_def hasKey_def)
  have c3: "getNumColumns ex_empty_labels < 2 ^ 31"
    by (simp add: ex_empty_labels_def Matrix_empty_def count_defs)
  have h3: "getValueArrayForKey (dependentsMetaData ex_empty_labels) ''labels''
              = Inr (StringArray []) \<and> ValueArray_size (StringArray []) = 0"
    by (simp add: ex_empty_labels_def getValueArrayForKey_def)
  have c4: "getNumColumns ex_short_units < 2 ^ 31"
    by (simp add: ex_short_units_def count_defs)
  have h4: "getValueArrayForKey (dependentsMetaData ex_short_units) ''labels''
              = Inr (StringArray [''a'', ''b''])
            \<and> 0 < ValueArray_size (StringArray [''a'', ''b''])
            \<and> ValueArray_size (StringArray [''a'', ''b'']) < 2 ^ 32
            \<and> ((getNumColumns ex_short_units \<noteq> 0
                 \<and> ValueArray_size (StringArray [''a'', ''b'']) \<noteq> getNumColumns ex_short_units)
               \<or> (\<exists>key \<in> set (getKeys (dependentsMetaData ex_short_units)).
                       \<exists>a. getValueArrayForKey (dependentsMetaData ex_short_units) key = Inr a
                         \<and> ValueArray_size a \<noteq> ValueArray_size (StringArray [''a'', ''b''])))"
    by (simp add: ex_short_units_def getValueArrayForKey_def getKeys_def count_defs)
  show ?thesis
    using c1 v1 h2 h3 h4
      validateDependentsMetaData_outcomes [OF c1]
      validateDependentsMetaData_outcomes [OF c2]
      validateDependentsMetaData_outcomes [OF c3]
      validateDependentsMetaData_outcomes [OF c4]
    by blast
qed

text \<open>
  Claim C9 as stated fails on a table with no column yet: with the labels a, b set
  on the empty table the validation returns without error, as it does inside
  \<^verbatim>\<open>setColumnLabels\<close> before the first row, while the "labels" array has length
  2 and the table has 0 columns.
\<close>

theorem validateDependentsMetaData_counterexample:
  "validateDependentsMetaData ex_labelled_empty = None
   \<and> getValueArrayForKey (dependentsMetaData ex_labelled_empty) ''labels''
       = Inr (StringArray [''a'', ''b''])
   \<and> ValueArray_size (StringArray [''a'', ''b'']) = 2
   \<and> getNumColumns ex_labelled_empty = 0"
  by (simp add: validateDependentsMetaData_def ex_labelled_empty_def getValueArrayForKey_def
      unsigned_cast_def getKeys_def count_defs Matrix_empty_def)

section \<open>Properties of flatten\<close>

lemma DataTable_copy_id: "DataTable_copy t = t"
  by (simp add: DataTable_copy_def)

text \<open>
  Claim C3, as amended: \<^verbatim>\<open>flatten()\<close> of a table of \<^verbatim>\<open>double\<close> returns a
  copy of the table, with the same row count, column count, independent column,
  matrix and column labels as the source; no suffix is added to the labels.
\<close>

theorem flatten_scalar_is_copy:
  "\<exists>t'. flatten Double t = Inr t'
       \<and> getNumRows t' = getNumRows t
       \<and> getNumColumns t' = getNumColumns t
       \<and> getIndependentColumn t' = getIndependentColumn t
       \<and> getMatrix t' = getMatrix t
       \<and> getColumnLabels t' = getColumnLabels t"
  by (simp add: flatten_def DataTable_copy_id)

text \<open>
  Claim C3 as stated fails: the table of \<^verbatim>\<open>double\<close> with one row and the
  labels a, b flattens to itself, and its labels are a, b, not a_1, b_1.
\<close>

theorem flatten_scalar_labels_counterexample:
  "getNumRows ex_scalar = 1 \<and> getNumColumns ex_scalar = 2
   \<and> getColumnLabels ex_scalar = Inr [''a'', ''b'']
   \<and> flatten Double ex_scalar = Inr ex_scalar
   \<and> getColumnLabels ex_scalar \<noteq> Inr [''a'' @ ''_1'', ''b'' @ ''_1'']"
  by (simp add: flatten_def DataTable_copy_id ex_scalar_def getColumnLabels_def
      getValueArrayForKey_def count_defs)

lemmas flatten_defs =
  DataTable_flatten_def hasColumnLabels_def hasKey_def count_defs numComponentsPerElement_def
  getKeys_def getValueArrayForKey_def setValueArrayForKey_def removeValueArrayForKey_def
  getColumnLabels_def

text \<open>
  Claim C4 says that metadata of a type other than string is dropped from the
  flattened table and that the transform does not fail. The code casts the pointer
  with \<^verbatim>\<open>dynamic_cast\<close>, which gives a null pointer and throws nothing, so the
  handler that removes the key is never entered: on the \<^verbatim>\<open>Vec3\<close> table with the
  metadata "column-index" of unsigned integers, flattening goes through the null
  pointer.
\<close>

theorem flatten_non_string_metadata_null_dereference:
  "hasColumnLabels ex_vec3_index \<and> getNumRows ex_vec3_index = 1
   \<and> getNumColumns ex_vec3_index = 2
   \<and> getValueArrayForKey (dependentsMetaData ex_vec3_index) ''column-index''
       = Inr (UnsignedArray [1, 2])
   \<and> flatten (VecType 3) ex_vec3_index = Inl NullPointerDereference"
  by (simp add: flatten_def flatten_defs ex_vec3_index_def)

lemma replicateMetaData_not_InvalidArgument:
  "replicateMetaData n keys d \<noteq> Inl InvalidArgument"
  by (induction keys arbitrary: d)
    (auto simp: getValueArrayForKey_def split: option.splits)

lemma validateKeys_not_InvalidArgument:
  "validateKeys d n keys \<noteq> Some InvalidArgument"
  by (induction keys) (auto simp: getValueArrayForKey_def split: option.splits)

lemma validateDependentsMetaData_not_InvalidArgument:
  "validateDependentsMetaData t \<noteq> Some InvalidArgument"
  by (auto simp: validateDependentsMetaData_def Let_def getValueArrayForKey_def
      validateKeys_not_InvalidArgument split: option.splits)

lemma appendRow_not_InvalidArgument:
  "fst (appendRow t x row) \<noteq> Some InvalidArgument"
  by (auto simp: appendRow_defs Let_def split: option.splits)

lemma appendRow_container_not_InvalidArgument:
  "fst (appendRow_container t x row) \<noteq> Some InvalidArgument"
  by (simp add: appendRow_container_def appendRow_iterators_def Let_def
      appendRow_not_InvalidArgument)

lemma getRowAtIndex_not_InvalidArgument:
  "getRowAtIndex t r \<noteq> Inl InvalidArgument"
  by (simp add: getRowAtIndex_def Matrix_row_def)

lemma appendRows_not_InvalidArgument:
  "appendRows that rs this \<noteq> Inl InvalidArgument"
proof (induction rs arbitrary: this)
  case Nil
  show ?case by simp
next
  case (Cons r rs)
  have step: "e \<noteq> InvalidArgument" if "appendRow_container this x row = (Some e, this')"
    for x row e this'
    using appendRow_container_not_InvalidArgument [of this x row] that by auto
  show ?case
    by (auto simp: Let_def Cons getRowAtIndex_not_InvalidArgument
        split: sum.splits prod.splits option.splits dest: step)
qed

text \<open>
  Claim C6: the converting constructor behind \<^verbatim>\<open>flatten\<close> fails with
  \<open>InvalidArgument\<close> exactly when the source has no column labels, or no row, or no
  column, or a list of suffixes that is not empty and whose size is not the number of
  components of an element. An empty list of suffixes never fails that check.
\<close>

theorem flatten_InvalidArgument_iff:
  "(DataTable_flatten ThatETY that suffixes = Inl InvalidArgument) =
     (\<not> hasColumnLabels that
      \<or> getNumRows that = 0 \<or> getNumColumns that = 0
      \<or> (suffixes \<noteq> [] \<and> length suffixes \<noteq> numComponentsPerElement ThatETY))"
proof (cases "\<not> hasColumnLabels that
      \<or> getNumRows that = 0 \<or> getNumColumns that = 0
      \<or> (suffixes \<noteq> [] \<and> length suffixes \<noteq> numComponentsPerElement ThatETY)")
  case True
  then show ?thesis by (auto simp: DataTable_flatten_def)
next
  case False
  have "DataTable_flatten ThatETY that suffixes \<noteq> Inl InvalidArgument"
    using False
    by (auto simp: DataTable_flatten_def Let_def setColumnLabels_def getColumnLabels_def
        getValueArrayForKey_def replicateMetaData_not_InvalidArgument
        appendRows_not_InvalidArgument validateDependentsMetaData_not_InvalidArgument
        split: sum.splits option.splits ValueArray.splits)
  then show ?thesis using False by simp
qed

theorem flatten_InvalidArgument_iff_witness:
  "DataTable_flatten (VecType 3) ex_vec3 [''_x'', ''_y''] = Inl InvalidArgument
   \<and> DataTable_flatten (VecType 3) ex_vec3 [] \<noteq> Inl InvalidArgument
   \<and> DataTable_flatten (VecType 3) ex_vec3 [''_x'', ''_y'', ''_z''] \<noteq> Inl InvalidArgument
   \<and> DataTable_flatten (VecType 3) (DataTable_default :: (real, Elem) DataTable) []
       = Inl InvalidArgument"
proof -
  have a: "hasColumnLabels ex_vec3 \<and> getNumRows ex_vec3 = 1 \<and> getNumColumns ex_vec3 = 2"
    by (simp add: ex_vec3_def hasColumnLabels_def hasKey_def count_defs)
  have b: "\<not> hasColumnLabels (DataTable_default :: (real, Elem) DataTable)"
    by (simp add: DataTable_default_def hasColumnLabels_def hasKey_def)
  have n: "numComponentsPerElement (VecType 3) = 3"
    by (simp add: numComponentsPerElement_def)
  show ?thesis
    using a b n
      flatten_InvalidArgument_iff [of "VecType 3" ex_vec3 "[''_x'', ''_y'']"]
      flatten_InvalidArgument_iff [of "VecType 3" ex_vec3 "[]"]
      flatten_InvalidArgument_iff [of "VecType 3" ex_vec3 "[''_x'', ''_y'', ''_z'']"]
      flatten_InvalidArgument_iff [of "VecType 3" "DataTable_default :: (real, Elem) DataTable" "[]"]
    by simp
qed

lemma length_concat_same:
  "list_all (\<lambda>xs. length xs = n) xss \<Longrightarrow> length (concat xss) = length xss * n"
  by (induction xss) auto

lemma split_length:
  "hasType ETY e \<Longrightarrow> ETY \<noteq> Double \<Longrightarrow>
     length (splitElementAndPushBack row e) = length row + numComponentsPerElement ETY"
  by (cases ETY; cases e) (auto simp: numComponentsPerElement_def length_concat_same)

lemma foldl_split_length:
  "list_all (hasType ETY) es \<Longrightarrow> ETY \<noteq> Double \<Longrightarrow>
     length (foldl splitElementAndPushBack row es)
       = length row + length es * numComponentsPerElement ETY"
  by (induction es arbitrary: row) (auto simp: split_length)

lemma flattened_row_width:
  assumes "wellTyped ETY (depData that)" and "r < nrow (depData that)" and "ETY \<noteq> Double"
    and "r < length (indData that)" and "nrow (depData that) < 2 ^ 31"
  shows "\<exists>thatRow. getRowAtIndex that r = Inr thatRow
           \<and> length (foldl splitElementAndPushBack []
                       (map (\<lambda>c. thatRow ! c) [0..<getNumColumns that]))
              = getNumColumns that * numComponentsPerElement ETY"
proof -
  let ?row = "map (elt (depData that) r) [0..<ncol (depData that)]"
  have "r < 2 ^ 31" using assms(2,5) by (rule less_trans)
  then have "Matrix_row (depData that) (int_cast (int r)) = Inr ?row"
    using assms(2) by (simp add: Matrix_row_cast)
  then have g: "getRowAtIndex that r = Inr ?row"
    using assms(4) by (simp add: getRowAtIndex_def isRowIndexOutOfRange_def)
  have m: "map (\<lambda>c. ?row ! c) [0..<getNumColumns that] = ?row"
    using map_nth [of ?row] by (simp add: count_defs)
  have "list_all (hasType ETY) ?row"
    using assms(1,2) by (simp add: wellTyped_def list_all_iff)
  then have "length (foldl splitElementAndPushBack [] ?row)
               = getNumColumns that * numComponentsPerElement ETY"
    using assms(3) by (simp add: foldl_split_length count_defs)
  then show ?thesis using g m by simp
qed

lemma appendRow_ok:
  assumes "getValueArrayForKey (dependentsMetaData t) ''labels'' = Inr labels"
    and "ValueArray_size labels = length row" and "length row < 2 ^ 32"
    and "0 < length row"
    and "nrow (depData t) = 0 \<or> ncol (depData t) = length row"
  shows "\<exists>t'. appendRow t x row = (None, t')
           \<and> dependentsMetaData t' = dependentsMetaData t
           \<and> nrow (depData t') = Suc (nrow (depData t))
           \<and> ncol (depData t') = length row"
proof -
  have u: "unsigned_cast (int (length row)) = length row"
    using assms(3) by (rule unsigned_cast_small)
  show ?thesis
  proof (cases "nrow (depData t) = 0 \<or> ncol (depData t) = 0")
    case True
    then show ?thesis
      using assms(1,2,4,5) u
      by (auto simp: appendRow_def validateRow_def appendRow_labelsCheck_def
          appendRow_write_def resize_def updRow_assign_def Let_def)
  next
    case False
    then show ?thesis
      using assms(5)
      by (simp add: appendRow_def validateRow_def appendRow_write_def resizeKeep_def
          updRow_assign_def Let_def)
  qed
qed

lemma appendRow_container_small:
  "length row < 2 ^ 31 \<Longrightarrow> appendRow_container t x row = appendRow t x row"
  by (simp add: appendRow_container_def appendRow_iterators_def int_cast_small)

lemma appendRows_ok:
  assumes "wellTyped ETY (depData that)" and "ETY \<noteq> Double"
    and "\<forall>r \<in> set rs. r < nrow (depData that) \<and> r < length (indData that)"
    and "getValueArrayForKey (dependentsMetaData this) ''labels'' = Inr labels"
    and "ValueArray_size labels = getNumColumns that * numComponentsPerElement ETY"
    and "getNumColumns that * numComponentsPerElement ETY < 2 ^ 31"
    and "0 < getNumColumns that * numComponentsPerElement ETY"
    and "nrow (depData this) = 0
         \<or> ncol (depData this) = getNumColumns that * numComponentsPerElement ETY"
    and "nrow (depData that) < 2 ^ 31"
  shows "\<exists>t'. appendRows that rs this = Inr t'
           \<and> dependentsMetaData t' = dependentsMetaData this
           \<and> nrow (depData t') = nrow (depData this) + length rs
           \<and> (rs \<noteq> [] \<longrightarrow>
                ncol (depData t') = getNumColumns that * numComponentsPerElement ETY)"
  using assms(3,4,8)
proof (induction rs arbitrary: this)
  case Nil
  then show ?case by simp
next
  case (Cons r rs)
  let ?W = "getNumColumns that * numComponentsPerElement ETY"
  have r: "r < nrow (depData that)" "r < length (indData that)"
    using Cons.prems(1) by auto
  obtain thatRow where row: "getRowAtIndex that r = Inr thatRow"
    and w: "length (foldl splitElementAndPushBack []
                       (map (\<lambda>c. thatRow ! c) [0..<getNumColumns that])) = ?W"
    using flattened_row_width [OF assms(1) r(1) assms(2) r(2) assms(9)] by blast
  let ?row = "foldl splitElementAndPushBack [] (map (\<lambda>c. thatRow ! c) [0..<getNumColumns that])"
  have "\<exists>this'. appendRow this (getIndependentColumn that ! r) ?row = (None, this')
           \<and> dependentsMetaData this' = dependentsMetaData this
           \<and> nrow (depData this') = Suc (nrow (depData this))
           \<and> ncol (depData this') = length ?row"
  proof (rule appendRow_ok [OF Cons.prems(2)])
    show "ValueArray_size labels = length ?row" using assms(5) w by simp
    show "length ?row < 2 ^ 32" using assms(6) w by simp
    show "0 < length ?row" using assms(7) w by simp
    show "nrow (depData this) = 0 \<or> ncol (depData this) = length ?row"
      using Cons.prems(3) w by simp
  qed
  moreover have "appendRow_container this (getIndependentColumn that ! r) ?row
                   = appendRow this (getIndependentColumn that ! r) ?row"
    using assms(6) w by (simp add: appendRow_container_small)
  ultimately obtain this' where
    a: "appendRow_container this (getIndependentColumn that ! r) ?row = (None, this')"
    and md: "dependentsMetaData this' = dependentsMetaData this"
    and nr: "nrow (depData this') = Suc (nrow (depData this))"
    and nc: "ncol (depData this') = ?W"
    using w by auto
  have "\<exists>t'. appendRows that rs this' = Inr t'
           \<and> dependentsMetaData t' = dependentsMetaData this'
           \<and> nrow (depData t') = nrow (depData this') + length rs
           \<and> (rs \<noteq> [] \<longrightarrow> ncol (depData t') = ?W)"
  proof (rule Cons.IH)
    show "\<forall>r \<in> set rs. r < nrow (depData that) \<and> r < length (indData that)"
      using Cons.prems(1) by simp
    show "getValueArrayForKey (dependentsMetaData this') ''labels'' = Inr labels"
      using Cons.prems(2) md by simp
    show "nrow (depData this') = 0 \<or> ncol (depData this') = ?W"
      using nc by simp
  qed
  then obtain t' where t: "appendRows that rs this' = Inr t'"
    and tmd: "dependentsMetaData t' = dependentsMetaData this'"
    and tnr: "nrow (depData t') = nrow (depData this') + length rs"
    and tnc: "rs \<noteq> [] \<longrightarrow> ncol (depData t') = ?W"
    by blast
  have step: "appendRows that (r # rs) this = Inr t'"
    using row a r(2) t by (simp add: getIndependentColumn_def)
  have "ncol (depData t') = ?W"
  proof (cases "rs = []")
    case True
    then have "t' = this'" using t by simp
    then show ?thesis using nc by simp
  next
    case False
    then show ?thesis using tnc by simp
  qed
  then show ?case
    using step tmd md tnr nr by simp
qed

lemma replicateMetaData_ok:
  assumes "distinct keys"
    and "\<forall>key \<in> set keys. key \<noteq> ''labels'' \<longrightarrow> (\<exists>vs. map_of d key = Some (StringArray vs))"
  shows "\<exists>d'. replicateMetaData n keys d = Inr d'
           \<and> map fst d' = map fst d
           \<and> (\<forall>key. key \<notin> set keys \<or> key = ''labels'' \<longrightarrow> map_of d' key = map_of d key)
           \<and> (\<forall>key vs. key \<in> set keys \<and> key \<noteq> ''labels''
                  \<and> map_of d key = Some (StringArray vs) \<longrightarrow>
                map_of d' key = Some (StringArray (concat (map (replicate n) vs))))"
  using assms
proof (induction keys arbitrary: d)
  case Nil
  then show ?case by simp
next
  case (Cons k ks)
  have dks: "distinct ks" and nk: "k \<notin> set ks" using Cons.prems(1) by simp_all
  show ?case
  proof (cases "k = ''labels''")
    case True
    have p: "\<forall>key \<in> set ks. key \<noteq> ''labels'' \<longrightarrow> (\<exists>vs. map_of d key = Some (StringArray vs))"
      using Cons.prems(2) by simp
    obtain d' where r: "replicateMetaData n ks d = Inr d'"
      and k': "map fst d' = map fst d"
      and same: "\<forall>key. key \<notin> set ks \<or> key = ''labels'' \<longrightarrow> map_of d' key = map_of d key"
      and rep: "\<forall>key vs. key \<in> set ks \<and> key \<noteq> ''labels''
                  \<and> map_of d key = Some (StringArray vs) \<longrightarrow>
                map_of d' key = Some (StringArray (concat (map (replicate n) vs)))"
      using Cons.IH [OF dks p] by blast
    have run: "replicateMetaData n (k # ks) d = Inr d'"
      using True r by simp
    have c3: "\<forall>key. key \<notin> set (k # ks) \<or> key = ''labels'' \<longrightarrow> map_of d' key = map_of d key"
      using same by simp
    have c4: "\<forall>key ws. key \<in> set (k # ks) \<and> key \<noteq> ''labels''
                  \<and> map_of d key = Some (StringArray ws) \<longrightarrow>
                map_of d' key = Some (StringArray (concat (map (replicate n) ws)))"
    proof (intro allI impI)
      fix key ws
      assume h: "key \<in> set (k # ks) \<and> key \<noteq> ''labels'' \<and> map_of d key = Some (StringArray ws)"
      then have "key \<in> set ks" using True by fastforce
      then show "map_of d' key = Some (StringArray (concat (map (replicate n) ws)))"
        using rep h by blast
    qed
    show ?thesis
      by (intro exI [of _ d'] conjI) (fact run, fact k', fact c3, fact c4)
  next
    case False
    then obtain vs where vs: "map_of d k = Some (StringArray vs)"
      using Cons.prems(2) by auto
    let ?a = "StringArray (concat (map (replicate n) vs))"
    let ?d1 = "AList.update k ?a d"
    have "(k, StringArray vs) \<in> set d" using vs by (rule map_of_SomeD)
    then have kin: "k \<in> set (map fst d)" by force
    have keys1: "map fst ?d1 = map fst d"
      using kin by (simp add: update_keys)
    have m1: "\<And>key. map_of ?d1 key = (if key = k then Some ?a else map_of d key)"
      by (simp add: update_conv')
    have p: "\<forall>key \<in> set ks. key \<noteq> ''labels'' \<longrightarrow> (\<exists>vs. map_of ?d1 key = Some (StringArray vs))"
      using Cons.prems(2) by (simp add: m1)
    obtain d' where r: "replicateMetaData n ks ?d1 = Inr d'"
      and k': "map fst d' = map fst ?d1"
      and same: "\<forall>key. key \<notin> set ks \<or> key = ''labels'' \<longrightarrow> map_of d' key = map_of ?d1 key"
      and rep: "\<forall>key vs. key \<in> set ks \<and> key \<noteq> ''labels''
                  \<and> map_of ?d1 key = Some (StringArray vs) \<longrightarrow>
                map_of d' key = Some (StringArray (concat (map (replicate n) vs)))"
      using Cons.IH [OF dks p] by blast
    have run: "replicateMetaData n (k # ks) d = Inr d'"
      using False vs r by (simp add: getValueArrayForKey_def setValueArrayForKey_def)
    have k'': "map fst d' = map fst d" using k' keys1 by simp
    have c3: "\<forall>key. key \<notin> set (k # ks) \<or> key = ''labels'' \<longrightarrow> map_of d' key = map_of d key"
    proof (intro allI impI)
      fix key
      assume h: "key \<notin> set (k # ks) \<or> key = ''labels''"
      then have "key \<noteq> k" using False by auto
      moreover have "map_of d' key = map_of ?d1 key" using same h by auto
      ultimately show "map_of d' key = map_of d key" by (simp add: m1)
    qed
    have c4: "\<forall>key ws. key \<in> set (k # ks) \<and> key \<noteq> ''labels''
                  \<and> map_of d key = Some (StringArray ws) \<longrightarrow>
                map_of d' key = Some (StringArray (concat (map (replicate n) ws)))"
    proof (intro allI impI)
      fix key ws
      assume h: "key \<in> set (k # ks) \<and> key \<noteq> ''labels'' \<and> map_of d key = Some (StringArray ws)"
      show "map_of d' key = Some (StringArray (concat (map (replicate n) ws)))"
      proof (cases "key = k")
        case True
        then have "map_of d' key = map_of ?d1 key" using same nk by simp
        then show ?thesis using True vs h by (simp add: m1)
      next
        case False
        then have "key \<in> set ks" using h by simp
        moreover have "map_of ?d1 key = Some (StringArray ws)" using False h by (simp add: m1)
        ultimately show ?thesis using rep h by blast
      qed
    qed
    show ?thesis
      by (intro exI [of _ d'] conjI) (fact run, fact k'', fact c3, fact c4)
  qed
qed

lemma length_concat_replicate: "length (concat (map (replicate n) vs)) = length vs * n"
  by (induction vs) auto

lemma length_expandLabel:
  "suffixes = [] \<or> length suffixes = n \<Longrightarrow> length (expandLabel n suffixes label) = n"
  by (auto simp: expandLabel_def)

lemma length_expanded_labels:
  "suffixes = [] \<or> length suffixes = n \<Longrightarrow>
     length (concat (map (expandLabel n suffixes) labels)) = length labels * n"
  by (induction labels) (auto simp: length_expandLabel)

lemma expandLabel_spec:
  "expandLabel n suffixes label =
     map (\<lambda>s. label @ s)
       (if suffixes = [] then map (\<lambda>i. ''_'' @ to_string i) [1..<n + 1] else suffixes)"
  by (simp add: expandLabel_def)

lemma setColumnLabels_ok:
  assumes "\<forall>key \<in> set (getKeys (dependentsMetaData t)). key \<noteq> ''labels'' \<longrightarrow>
             (\<exists>a. map_of (dependentsMetaData t) key = Some a \<and> ValueArray_size a = length ls)"
    and "0 < length ls" and "length ls < 2 ^ 32" and "ncol (depData t) = 0"
  shows "\<exists>t'. setColumnLabels t ls = (None, t')
           \<and> getValueArrayForKey (dependentsMetaData t') ''labels'' = Inr (StringArray ls)
           \<and> depData t' = depData t \<and> indData t' = indData t"
proof -
  let ?d = "dependentsMetaData t"
  let ?d2 = "AList.update ''labels'' (StringArray ls) (AList.delete ''labels'' ?d)"
  let ?t' = "t\<lparr>dependentsMetaData := ?d2\<rparr>"
  have m2: "\<And>key. map_of ?d2 key = (if key = ''labels'' then Some (StringArray ls) else map_of ?d key)"
    by (simp add: update_conv' delete_conv')
  have k2: "set (map fst ?d2) \<subseteq> insert ''labels'' (set (map fst ?d))"
    by (auto simp: update_keys delete_keys)
  have l: "getValueArrayForKey ?d2 ''labels'' = Inr (StringArray ls)"
    by (simp add: getValueArrayForKey_def m2)
  have u: "unsigned_cast (int (length ls)) = length ls"
    using assms(3) by (rule unsigned_cast_small)
  have "\<forall>key \<in> set (getKeys ?d2). \<exists>a. getValueArrayForKey ?d2 key = Inr a
          \<and> ValueArray_size a = length ls"
  proof
    fix key
    assume "key \<in> set (getKeys ?d2)"
    then have k: "key = ''labels'' \<or> key \<in> set (getKeys ?d)"
      using k2 by (auto simp: getKeys_def)
    show "\<exists>a. getValueArrayForKey ?d2 key = Inr a \<and> ValueArray_size a = length ls"
    proof (cases "key = ''labels''")
      case True
      then show ?thesis using l by simp
    next
      case False
      then obtain a where "map_of ?d key = Some a" and "ValueArray_size a = length ls"
        using k assms(1) by blast
      then show ?thesis using False by (simp add: getValueArrayForKey_def m2)
    qed
  qed
  then have "validateKeys ?d2 (length ls) (getKeys ?d2) = None"
    by (simp add: validateKeys_None)
  then have "validateDependentsMetaData ?t' = None"
    using l u assms(2,4) by (simp add: validateDependentsMetaData_def)
  then have "setColumnLabels t ls = (None, ?t')"
    by (simp add: setColumnLabels_def setValueArrayForKey_def removeValueArrayForKey_def)
  then show ?thesis using l by simp
qed

lemma stringMetaData_lookup:
  assumes "stringMetaData n d" and "key \<in> set (getKeys d)"
  shows "\<exists>vs. map_of d key = Some (StringArray vs) \<and> length vs = n"
proof -
  obtain a where a: "(key, a) \<in> set d" using assms(2) by (auto simp: getKeys_def)
  then have "case dynamic_cast_StringArray a of None \<Rightarrow> False | Some vs \<Rightarrow> length vs = n"
    using assms(1) by (auto simp: stringMetaData_def list_all_iff)
  then obtain vs where "a = StringArray vs" and "length vs = n"
    by (cases a) auto
  moreover have "map_of d key = Some a"
    using a assms(1) by (simp add: stringMetaData_def)
  ultimately show ?thesis by simp
qed

lemma appendRow_dependentsMetaData:
  "appendRow t x row = (e, t') \<Longrightarrow> dependentsMetaData t' = dependentsMetaData t"
  by (auto simp: appendRow_def validateRow_def appendRow_write_def Let_def
      split: option.splits sum.splits if_splits)

lemma appendRow_container_dependentsMetaData:
  "appendRow_container t x row = (e, t') \<Longrightarrow> dependentsMetaData t' = dependentsMetaData t"
  by (auto simp: appendRow_container_def appendRow_iterators_def Let_def
      split: if_splits dest: appendRow_dependentsMetaData)

lemma appendRows_dependentsMetaData:
  "appendRows that rs new = Inr t' \<Longrightarrow> dependentsMetaData t' = dependentsMetaData new"
proof (induction rs arbitrary: new)
  case Nil
  then show ?case by simp
next
  case (Cons r rs)
  then show ?case
    by (auto simp: Let_def split: if_splits sum.splits option.splits prod.splits
        dest: appendRow_container_dependentsMetaData)
qed

text \<open>
  Whenever the converting constructor returns a table, whatever the source table,
  the labels of the result are the expansion of the source labels.
\<close>

lemma flatten_labels_of_result:
  assumes "DataTable_flatten ThatETY that suffixes = Inr t'"
  shows "\<exists>labels. getColumnLabels that = Inr labels
           \<and> getColumnLabels t' =
               Inr (concat (map (expandLabel (numComponentsPerElement ThatETY) suffixes)
                      labels))"
proof -
  obtain d labels new where l: "getColumnLabels that = Inr labels"
    and s: "setColumnLabels
              \<lparr>tableMetaData = tableMetaData that,
               independentMetaData = independentMetaData that,
               dependentsMetaData = d,
               indData = [], depData = Matrix_empty\<rparr>
              (concat (map (expandLabel (numComponentsPerElement ThatETY) suffixes) labels))
            = (None, new)"
    and a: "appendRows that [0..<getNumRows that] new = Inr t'"
    using assms
    by (auto simp: DataTable_flatten_def Let_def
        split: if_splits sum.splits option.splits prod.splits)
  have "getValueArrayForKey (dependentsMetaData new) ''labels''
          = Inr (StringArray
                   (concat (map (expandLabel (numComponentsPerElement ThatETY) suffixes)
                      labels)))"
    using s
    by (auto simp: setColumnLabels_def Let_def getValueArrayForKey_def setValueArrayForKey_def
        update_conv')
  then show ?thesis
    using l appendRows_dependentsMetaData [OF a] by (simp add: getColumnLabels_def)
qed

text \<open>
  Claim C5: the labels of the flattened table. The source table has an element type
  other than \<^verbatim>\<open>double\<close> with at least one component, column labels, at least
  one row and one column, and either no suffixes or as many as an element has
  components; it is well formed (one independent value per row, elements of the
  element type, string metadata with one entry per column, a row count and a
  flattened column count that fit a C++ \<^verbatim>\<open>int\<close>). Then the converting
  constructor returns a table whose labels
  are, for the source labels in order, each label followed by each suffix in order,
  the suffixes being the supplied ones or "_1" to "_k" when none is supplied. The
  flattened table has the rows of the source and \<open>k\<close> columns for each of its columns.
\<close>

theorem flatten_labels:
  assumes "ThatETY \<noteq> Double" and "0 < numComponentsPerElement ThatETY"
    and "getColumnLabels that = Inr labels"
    and "getNumRows that \<noteq> 0" and "getNumColumns that \<noteq> 0"
    and "suffixes = [] \<or> length suffixes = numComponentsPerElement ThatETY"
    and "stringMetaData (getNumColumns that) (dependentsMetaData that)"
    and "length (getIndependentColumn that) = getNumRows that"
    and "wellTyped ThatETY (getMatrix that)"
    and "getNumColumns that * numComponentsPerElement ThatETY < 2 ^ 31"
    and "getNumRows that < 2 ^ 31"
  shows "\<exists>t'. DataTable_flatten ThatETY that suffixes = Inr t'
           \<and> getColumnLabels t' =
               Inr (concat (map (\<lambda>L. map (\<lambda>s. L @ s)
                      (if suffixes = []
                       then map (\<lambda>i. ''_'' @ to_string i)
                              [1..<numComponentsPerElement ThatETY + 1]
                       else suffixes)) labels))
           \<and> getNumRows t' = getNumRows that
           \<and> getNumColumns t' = getNumColumns that * numComponentsPerElement ThatETY"
proof -
  let ?n = "numComponentsPerElement ThatETY"
  let ?md = "dependentsMetaData that"
  let ?C = "getNumColumns that"
  let ?ls = "concat (map (expandLabel ?n suffixes) labels)"
  have lab: "map_of ?md ''labels'' = Some (StringArray labels)"
    using assms(3)
    by (auto simp: getColumnLabels_def getValueArrayForKey_def
        split: option.splits ValueArray.splits)
  then have has: "hasColumnLabels that"
    by (simp add: hasColumnLabels_def hasKey_def)
  have "''labels'' \<in> set (getKeys ?md)"
    using map_of_SomeD [OF lab] by (force simp: getKeys_def)
  then have len_labels: "length labels = ?C"
    using stringMetaData_lookup [OF assms(7)] lab by fastforce
  have len_ls: "length ?ls = ?C * ?n"
    using assms(6) len_labels by (simp add: length_expanded_labels)
  have dist: "distinct (getKeys ?md)"
    using assms(7) by (simp add: stringMetaData_def getKeys_def)
  have strs: "\<forall>key \<in> set (getKeys ?md). key \<noteq> ''labels'' \<longrightarrow>
                (\<exists>vs. map_of ?md key = Some (StringArray vs))"
    using stringMetaData_lookup [OF assms(7)] by blast
  obtain d where r: "replicateMetaData ?n (getKeys ?md) ?md = Inr d"
    and kd: "map fst d = map fst ?md"
    and rep: "\<forall>key vs. key \<in> set (getKeys ?md) \<and> key \<noteq> ''labels''
                  \<and> map_of ?md key = Some (StringArray vs) \<longrightarrow>
                map_of d key = Some (StringArray (concat (map (replicate ?n) vs)))"
    using replicateMetaData_ok [OF dist strs, of ?n] by blast
  let ?new = "\<lparr>tableMetaData = tableMetaData that,
                 independentMetaData = independentMetaData that,
                 dependentsMetaData = d,
                 indData = [] :: 'a list, depData = Matrix_empty :: Elem Matrix\<rparr>"
  have sized: "\<forall>key \<in> set (getKeys (dependentsMetaData ?new)). key \<noteq> ''labels'' \<longrightarrow>
             (\<exists>a. map_of (dependentsMetaData ?new) key = Some a
                \<and> ValueArray_size a = length ?ls)"
  proof (intro ballI impI)
    fix key
    assume k: "key \<in> set (getKeys (dependentsMetaData ?new))" and nl: "key \<noteq> ''labels''"
    then have k': "key \<in> set (getKeys ?md)" using kd by (simp add: getKeys_def)
    then obtain vs where vs: "map_of ?md key = Some (StringArray vs)" and l: "length vs = ?C"
      using stringMetaData_lookup [OF assms(7)] by blast
    then have "map_of d key = Some (StringArray (concat (map (replicate ?n) vs)))"
      using rep k' nl by blast
    then show "\<exists>a. map_of (dependentsMetaData ?new) key = Some a
                \<and> ValueArray_size a = length ?ls"
      using l len_ls by (simp add: length_concat_replicate)
  qed
  have pos: "0 < ?C * ?n" using assms(2,5) by simp
  have "\<exists>t'. setColumnLabels ?new ?ls = (None, t')
           \<and> getValueArrayForKey (dependentsMetaData t') ''labels'' = Inr (StringArray ?ls)
           \<and> depData t' = depData ?new \<and> indData t' = indData ?new"
  proof (rule setColumnLabels_ok [OF sized])
    show "0 < length ?ls" using pos len_ls by simp
    show "length ?ls < 2 ^ 32" using assms(10) len_ls by simp
    show "ncol (depData ?new) = 0" by (simp add: Matrix_empty_def)
  qed
  then obtain new1 where s: "setColumnLabels ?new ?ls = (None, new1)"
    and l1: "getValueArrayForKey (dependentsMetaData new1) ''labels'' = Inr (StringArray ?ls)"
    and d1: "depData new1 = Matrix_empty"
    by auto
  have "\<exists>t'. appendRows that [0..<getNumRows that] new1 = Inr t'
           \<and> dependentsMetaData t' = dependentsMetaData new1
           \<and> nrow (depData t') = nrow (depData new1) + length [0..<getNumRows that]
           \<and> ([0..<getNumRows that] \<noteq> [] \<longrightarrow> ncol (depData t') = ?C * ?n)"
  proof (rule appendRows_ok [where labels = "StringArray ?ls"])
    show "wellTyped ThatETY (depData that)" using assms(9) by (simp add: getMatrix_def)
    show "ThatETY \<noteq> Double" by (rule assms(1))
    show "\<forall>r \<in> set [0..<getNumRows that]. r < nrow (depData that) \<and> r < length (indData that)"
      using assms(8) by (simp add: count_defs getIndependentColumn_def)
    show "getValueArrayForKey (dependentsMetaData new1) ''labels'' = Inr (StringArray ?ls)"
      by (rule l1)
    show "ValueArray_size (StringArray ?ls) = ?C * ?n" using len_ls by simp
    show "?C * ?n < 2 ^ 31" by (rule assms(10))
    show "nrow (depData that) < 2 ^ 31" using assms(11) by (simp add: count_defs)
    show "0 < ?C * ?n" by (rule pos)
    show "nrow (depData new1) = 0 \<or> ncol (depData new1) = ?C * ?n"
      using d1 by (simp add: Matrix_empty_def)
  qed
  then obtain t' where a: "appendRows that [0..<getNumRows that] new1 = Inr t'"
    and md': "dependentsMetaData t' = dependentsMetaData new1"
    and nr: "nrow (depData t') = getNumRows that"
    and nc: "ncol (depData t') = ?C * ?n"
    using assms(4) d1 by (auto simp: Matrix_empty_def)
  have run: "DataTable_flatten ThatETY that suffixes = Inr t'"
    using has assms(3,4,5,6) r s a
    by (auto simp: DataTable_flatten_def Let_def)
  have "getColumnLabels t' = Inr ?ls"
    using md' l1 by (simp add: getColumnLabels_def)
  moreover have "?ls = concat (map (\<lambda>L. map (\<lambda>s. L @ s)
                      (if suffixes = []
                       then map (\<lambda>i. ''_'' @ to_string i) [1..<?n + 1]
                       else suffixes)) labels)"
  proof -
    have "expandLabel ?n suffixes = (\<lambda>L. map (\<lambda>s. L @ s)
                      (if suffixes = []
                       then map (\<lambda>i. ''_'' @ to_string i) [1..<?n + 1]
                       else suffixes))"
      by (rule ext) (rule expandLabel_spec)
    then show ?thesis by (simp only:)
  qed
  ultimately show ?thesis
    using run nr nc by (simp add: count_defs)
qed

lemma ex_vec3_flattenable:
  "VecType 3 \<noteq> Double \<and> 0 < numComponentsPerElement (VecType 3)
   \<and> getColumnLabels ex_vec3 = Inr [''a'', ''b'']
   \<and> getNumRows ex_vec3 \<noteq> 0 \<and> getNumColumns ex_vec3 \<noteq> 0
   \<and> stringMetaData (getNumColumns ex_vec3) (dependentsMetaData ex_vec3)
   \<and> length (getIndependentColumn ex_vec3) = getNumRows ex_vec3
   \<and> wellTyped (VecType 3) (getMatrix ex_vec3)
   \<and> getNumColumns ex_vec3 * numComponentsPerElement (VecType 3) < 2 ^ 31
   \<and> getNumRows ex_vec3 < 2 ^ 31"
  by (simp add: ex_vec3_def numComponentsPerElement_def getColumnLabels_def
      getValueArrayForKey_def count_defs stringMetaData_def getIndependentColumn_def
      wellTyped_def getMatrix_def upt_rec)

theorem flatten_labels_witness:
  "(\<exists>t'. DataTable_flatten (VecType 3) ex_vec3 [''_x'', ''_y'', ''_z''] = Inr t'
         \<and> getColumnLabels t' = Inr [''a_x'', ''a_y'', ''a_z'', ''b_x'', ''b_y'', ''b_z''])
   \<and> (\<exists>t'. DataTable_flatten (VecType 3) ex_vec3 [] = Inr t'
         \<and> getColumnLabels t' = Inr [''a_1'', ''a_2'', ''a_3'', ''b_1'', ''b_2'', ''b_3''])"
proof -
  note f = ex_vec3_flattenable
  have s1: "[''_x'', ''_y'', ''_z''] = [] \<or> length [''_x'', ''_y'', ''_z''] = numComponentsPerElement (VecType 3)"
    by (simp add: numComponentsPerElement_def)
  have s2: "([] :: string list) = [] \<or> length ([] :: string list) = numComponentsPerElement (VecType 3)"
    by simp
  have n: "numComponentsPerElement (VecType 3) = 3"
    by (simp add: numComponentsPerElement_def)
  have u: "[Suc 0..<4] = [Suc 0, 2, 3]"
    by (simp add: upt_rec)
  have ts: "to_string (Suc 0) = ''1''" "to_string 2 = ''2''" "to_string 3 = ''3''"
    by (simp_all add: to_string.simps digit_char_def)
  have a: "\<exists>t'. DataTable_flatten (VecType 3) ex_vec3 [''_x'', ''_y'', ''_z''] = Inr t'
         \<and> getColumnLabels t' = Inr [''a_x'', ''a_y'', ''a_z'', ''b_x'', ''b_y'', ''b_z'']"
    using flatten_labels [of "VecType 3" ex_vec3 "[''a'', ''b'']" "[''_x'', ''_y'', ''_z'']"] f s1
    by auto
  have b: "\<exists>t'. DataTable_flatten (VecType 3) ex_vec3 [] = Inr t'
         \<and> getColumnLabels t' = Inr [''a_1'', ''a_2'', ''a_3'', ''b_1'', ''b_2'', ''b_3'']"
    using flatten_labels [of "VecType 3" ex_vec3 "[''a'', ''b'']" "[]"] f s2
    by (auto simp: n u ts)
  show ?thesis using a b by simp
qed

end
